theory Spec2Isabelle
  imports Complex_Main
begin

section \<open>aiorm: the asynchronous, retrying, rate limited request manager\<close>

text \<open>
  A shallow embedding of \<^verbatim>\<open>aiorm/__init__.py\<close>. Python names that start with an
  underscore lose it (\<^verbatim>\<open>_get_token\<close> is \<open>get_token\<close>); the counter
  \<^verbatim>\<open>self._requests\<close> is the field \<open>self_requests\<close> and \<^verbatim>\<open>self.__session\<close>
  is \<open>self_session\<close>. Readings of \<^verbatim>\<open>time.monotonic()\<close> are exact rationals.
\<close>

subsection \<open>Exceptions and the Python values the manager handles\<close>

text \<open>
  The exception classes the module defines, imports or provokes. \<open>CancelledError\<close> derives
  from \<^verbatim>\<open>BaseException\<close> (Python 3.9, the version \<^verbatim>\<open>setup.py\<close> asks for), so
  \<^verbatim>\<open>except Exception\<close> does not catch it.
\<close>

datatype exn =
    ClientResponseError int
  | ClientConnectionError
  | TimeoutError
  | CancelledError
  | NameError string
  | TypeError
  | ValueError
  | JSONDecodeError
  | AttributeError string
  | ParserError
  | ZeroDivisionError
  | OverflowError
  | QueueFull
  | RetriesExceededError
  | MaxRequestsExceededError

fun is_Exception :: "exn \<Rightarrow> bool" where
  "is_Exception CancelledError = False"
| "is_Exception _ = True"

fun is_ValueError :: "exn \<Rightarrow> bool" where
  "is_ValueError ValueError = True"
| "is_ValueError JSONDecodeError = True"
| "is_ValueError ParserError = True"
| "is_ValueError _ = False"

datatype pyval = PyNone | PyInt int | PyStr string | PyExc exn | PyPartial string

fun truthy :: "pyval \<Rightarrow> bool" where
  "truthy PyNone = False"
| "truthy (PyInt n) = (n \<noteq> 0)"
| "truthy (PyStr s) = (s \<noteq> [])"
| "truthy (PyExc e) = True"
| "truthy (PyPartial a) = True"

text \<open>\<^verbatim>\<open>a == b\<close> on these values: values of different types are unequal.\<close>

fun py_eq :: "pyval \<Rightarrow> pyval \<Rightarrow> bool" where
  "py_eq PyNone PyNone = True"
| "py_eq (PyInt a) (PyInt b) = (a = b)"
| "py_eq (PyStr a) (PyStr b) = (a = b)"
| "py_eq (PyExc a) (PyExc b) = False"
| "py_eq _ _ = False"

subsection \<open>Module namespace\<close>

text \<open>
  The names the module binds at top level: its seven imports, \<^verbatim>\<open>log\<close>, the three
  exception classes, \<^verbatim>\<open>default_retry\<close> and \<^verbatim>\<open>RequestManager\<close>. Reading any other
  name that is not a builtin raises \<^verbatim>\<open>NameError\<close>.
\<close>

definition module_globals :: "string list" where
  "module_globals =
     [''time'', ''json'', ''pprint'', ''asyncio'', ''aiohttp'', ''logging'', ''functools'',
      ''log'', ''RequestManagerError'', ''RetriesExceededError'', ''MaxRequestsExceededError'',
      ''default_retry'', ''RequestManager'']"

definition load_global :: "string \<Rightarrow> exn + unit" where
  "load_global name = (if name \<in> set module_globals then Inr () else Inl (NameError name))"

subsection \<open>The default retry predicate\<close>

definition retry_for_statuses :: "int list" where
  "retry_for_statuses = [500, 502, 503, 504, 599]"

fun default_retry :: "exn \<Rightarrow> bool" where
  "default_retry (ClientResponseError status) = (status \<in> set retry_for_statuses)"
| "default_retry _ = False"

subsection \<open>Python's \<^verbatim>\<open>int()\<close> on a string\<close>

text \<open>
  \<^verbatim>\<open>int(s)\<close> strips surrounding whitespace, accepts one sign, and then wants decimal
  digits, where single underscores may separate digits. Anything else is a
  \<^verbatim>\<open>ValueError\<close>. A character here is one code point below 256 of the Python string.
  In that range the blanks that \<^verbatim>\<open>int\<close> strips are tab to carriage return (9 to 13),
  the space (32), and the two code points above 127 that Unicode counts as blanks, 133 and
  160; the separators 28 to 31 are not stripped, and the only decimal digits are the ASCII
  ones.
\<close>

definition is_space :: "char \<Rightarrow> bool" where
  "is_space c =
     (let n = (of_char c :: nat) in (9 \<le> n \<and> n \<le> 13) \<or> n = 32 \<or> n = 133 \<or> n = 160)"

definition is_digit :: "char \<Rightarrow> bool" where
  "is_digit c = (let n = (of_char c :: nat) in 48 \<le> n \<and> n \<le> 57)"

definition digit_of :: "char \<Rightarrow> int" where
  "digit_of c = int (of_char c) - 48"

definition strip :: "string \<Rightarrow> string" where
  "strip s = rev (dropWhile is_space (rev (dropWhile is_space s)))"

fun digit_run :: "int \<Rightarrow> string \<Rightarrow> int option" where
  "digit_run acc [] = Some acc"
| "digit_run acc (c # cs) =
     (if is_digit c then digit_run (10 * acc + digit_of c) cs
      else if c = CHR ''_'' then
        (case cs of
           [] \<Rightarrow> None
         | d # ds \<Rightarrow> if is_digit d then digit_run (10 * acc + digit_of d) ds else None)
      else None)"

definition py_digits :: "string \<Rightarrow> int option" where
  "py_digits s =
     (case s of
        [] \<Rightarrow> None
      | c # cs \<Rightarrow> if is_digit c then digit_run (digit_of c) cs else None)"

definition int_of_str :: "string \<Rightarrow> int option" where
  "int_of_str s =
     (case strip s of
        [] \<Rightarrow> None
      | c # cs \<Rightarrow>
          if c = CHR ''-'' then map_option uminus (py_digits cs)
          else if c = CHR ''+'' then py_digits cs
          else py_digits (c # cs))"

text \<open>\<^verbatim>\<open>int(value)\<close>: a \<^verbatim>\<open>TypeError\<close> for a value that is neither number nor string.\<close>

fun py_int :: "pyval \<Rightarrow> exn + int" where
  "py_int (PyInt n) = Inr n"
| "py_int (PyStr s) = (case int_of_str s of Some n \<Rightarrow> Inr n | None \<Rightarrow> Inl ValueError)"
| "py_int PyNone = Inl TypeError"
| "py_int (PyExc e) = Inl TypeError"
| "py_int (PyPartial a) = Inl TypeError"

subsection \<open>The token queue\<close>

text \<open>
  \<^verbatim>\<open>asyncio.Queue(maxsize)\<close>: a queue whose \<open>maxsize\<close> is zero or negative is unbounded
  and never full. \<^verbatim>\<open>put_nowait\<close> raises \<^verbatim>\<open>QueueFull\<close> on a full queue.
\<close>

record queue =
  maxsize :: int
  items :: "int list"

definition qsize :: "queue \<Rightarrow> int" where
  "qsize q = int (length (items q))"

definition full :: "queue \<Rightarrow> bool" where
  "full q = (if maxsize q \<le> 0 then False else maxsize q \<le> qsize q)"

definition put_nowait :: "queue \<Rightarrow> int \<Rightarrow> exn + queue" where
  "put_nowait q i = (if full q then Inl QueueFull else Inr (q\<lparr>items := items q @ [i]\<rparr>))"

text \<open>
  \<^verbatim>\<open>for i in range(0, n): queue.put_nowait(i)\<close>; the range is empty for \<open>n \<le> 0\<close>.
  The result is the exception that stopped the loop, if any, and the queue as it then is.
\<close>

definition py_range :: "int \<Rightarrow> int list" where
  "py_range n = map int [0..<nat n]"

fun put_all :: "queue \<Rightarrow> int list \<Rightarrow> exn option \<times> queue" where
  "put_all q [] = (None, q)"
| "put_all q (i # rest) =
     (case put_nowait q i of Inl e \<Rightarrow> (Some e, q) | Inr q' \<Rightarrow> put_all q' rest)"

subsection \<open>The manager\<close>

text \<open>
  The refill coroutine \<^verbatim>\<open>_rate_manager\<close> is suspended only at its two
  \<^verbatim>\<open>await asyncio.sleep\<close>; a control point keeps the locals that are live there
  (\<open>sleep\<close>, \<open>last_check_end\<close> and, in the penalty sleep, \<open>now\<close>).
\<close>

datatype rm_pc =
    RM_Created
  | RM_PenaltySleep rat rat rat
  | RM_IntervalSleep rat rat
  | RM_Finished

record task =
  pc :: rm_pc
  must_cancel :: bool

record session =
  closed :: bool

text \<open>
  The fields \<^verbatim>\<open>__init__\<close> assigns, without those that only configure the HTTP transport.
  \<^verbatim>\<open>__init__\<close> assigns neither \<^verbatim>\<open>max_requests\<close> nor \<^verbatim>\<open>default_retry_after_delay\<close>:
  they are \<open>None\<close> here until a caller assigns them on the instance, and reading them
  before that goes through \<^verbatim>\<open>__getattr__\<close>.
\<close>

record manager =
  retries :: int
  should_retry :: "exn \<Rightarrow> bool"
  json_deserialize :: "string \<Rightarrow> exn + string"
  rate_limit :: "int option"
  rate_limit_burst :: int
  token_queue :: "queue option"
  rate_manager_task :: "task option"
  retry_after_event :: bool
  retry_after_time :: "rat option"
  self_session :: "session option"
  start :: rat
  self_requests :: int
  max_requests :: "pyval option"
  default_retry_after_delay :: "pyval option"

definition shortcuts :: "string list" where
  "shortcuts = [''delete'', ''get'', ''head'', ''options'', ''patch'', ''post'', ''put'']"

definition rate_limit_min_burst_size :: int where
  "rate_limit_min_burst_size = 2"

definition min_sleep :: rat where
  "min_sleep = 1 / 10"

text \<open>
  \<^verbatim>\<open>__getattr__\<close> runs for an attribute the instance does not have. For a name
  outside \<open>shortcuts\<close> it \<^emph>\<open>returns\<close> an \<^verbatim>\<open>AttributeError\<close> object, it does not raise it.
\<close>

definition getattr_fallback :: "string \<Rightarrow> pyval" where
  "getattr_fallback attr =
     (if attr \<in> set shortcuts then PyPartial attr else PyExc (AttributeError attr))"

definition get_max_requests :: "manager \<Rightarrow> pyval" where
  "get_max_requests m =
     (case max_requests m of Some v \<Rightarrow> v | None \<Rightarrow> getattr_fallback ''max_requests'')"

definition get_default_retry_after_delay :: "manager \<Rightarrow> pyval" where
  "get_default_retry_after_delay m =
     (case default_retry_after_delay m of
        Some v \<Rightarrow> v
      | None \<Rightarrow> getattr_fallback ''default_retry_after_delay'')"

text \<open>Truth value of \<^verbatim>\<open>self.rate_limit\<close> (\<^verbatim>\<open>None\<close> or a number) and of a time stamp.\<close>

definition enabled :: "int option \<Rightarrow> bool" where
  "enabled r = (case r of None \<Rightarrow> False | Some n \<Rightarrow> n \<noteq> 0)"

definition time_set :: "rat option \<Rightarrow> bool" where
  "time_set t = (case t of None \<Rightarrow> False | Some x \<Rightarrow> x \<noteq> 0)"

text \<open>
  \<^verbatim>\<open>__init__\<close> at clock reading \<open>now\<close>. The queue is made with
  \<^verbatim>\<open>asyncio.Queue(int(rate_limit_burst))\<close> and the refill task is created, both only when
  \<^verbatim>\<open>rate_limit\<close> is true.
\<close>

definition init ::
  "(exn \<Rightarrow> bool) \<Rightarrow> int \<Rightarrow> int option \<Rightarrow> int \<Rightarrow> (string \<Rightarrow> exn + string) \<Rightarrow> rat \<Rightarrow> manager" where
  "init retry_pred n_retries rate burst deserialize now =
     \<lparr> retries = n_retries,
       should_retry = retry_pred,
       json_deserialize = deserialize,
       rate_limit = rate,
       rate_limit_burst = burst,
       token_queue = (if enabled rate then Some \<lparr>maxsize = burst, items = []\<rparr> else None),
       rate_manager_task =
         (if enabled rate then Some \<lparr>pc = RM_Created, must_cancel = False\<rparr> else None),
       retry_after_event = True,
       retry_after_time = None,
       self_session = None,
       start = now,
       self_requests = 0,
       max_requests = None,
       default_retry_after_delay = None \<rparr>"

text \<open>The constructor's defaults: \<^verbatim>\<open>retries=3, rate_limit=3, rate_limit_burst=20\<close>.\<close>

definition init_default :: "(string \<Rightarrow> exn + string) \<Rightarrow> rat \<Rightarrow> manager" where
  "init_default deserialize now = init default_retry 3 (Some 3) 20 deserialize now"

definition sleep_duration :: "manager \<Rightarrow> exn + rat option" where
  "sleep_duration m =
     (case rate_limit m of
        None \<Rightarrow> Inr None
      | Some r \<Rightarrow>
          if r = 0 then Inl ZeroDivisionError
          else Inr (Some (max (1 / of_int r) min_sleep)))"

subsection \<open>Parsing the Retry-After header\<close>

text \<open>
  What lies outside the repository and is named by \<^verbatim>\<open>_parse_retry_after\<close>:
  \<open>dateutil_parse\<close> stands for \<^verbatim>\<open>parser.parse\<close> (the date as seconds since the epoch)
  and \<open>utcnow\<close> for \<^verbatim>\<open>datetime.now(timezone.utc)\<close>. The module imports none of
  \<^verbatim>\<open>parser\<close>, \<^verbatim>\<open>datetime\<close>, \<^verbatim>\<open>timezone\<close>, so each of these names is looked up in
  \<open>module_globals\<close> in the order the interpreter reads them.
\<close>

record extern =
  dateutil_parse :: "string \<Rightarrow> exn + rat"
  utcnow :: rat

text \<open>
  \<^verbatim>\<open>timedelta.seconds\<close> is the seconds field of the normalised difference (days, seconds,
  microseconds with \<open>0 \<le> seconds < 86400\<close>), not the total number of seconds.
\<close>

definition timedelta_seconds :: "rat \<Rightarrow> int" where
  "timedelta_seconds d = \<lfloor>d\<rfloor> mod 86400"

text \<open>The body of the second \<^verbatim>\<open>try\<close>: lines 309 to 312.\<close>

definition parse_date_block :: "extern \<Rightarrow> pyval \<Rightarrow> exn + pyval" where
  "parse_date_block x v =
     (case load_global ''parser'' of
        Inl e \<Rightarrow> Inl e
      | Inr _ \<Rightarrow>
          (case v of
             PyStr s \<Rightarrow>
               (case dateutil_parse x s of
                  Inl e \<Rightarrow> Inl e
                | Inr date \<Rightarrow>
                    (case load_global ''datetime'' of
                       Inl e \<Rightarrow> Inl e
                     | Inr _ \<Rightarrow>
                         (case load_global ''timezone'' of
                            Inl e \<Rightarrow> Inl e
                          | Inr _ \<Rightarrow> Inr (PyInt (timedelta_seconds (date - utcnow x))))))
           | _ \<Rightarrow> Inl TypeError))"

text \<open>
  \<^verbatim>\<open>_parse_retry_after\<close>. The first handler catches \<^verbatim>\<open>ValueError\<close> only. Matching an
  exception of the second block against \<^verbatim>\<open>except parser.ParserError\<close> reads the name
  \<^verbatim>\<open>parser\<close> again, and an exception raised there replaces the one being matched.
\<close>

definition parse_retry_after :: "manager \<Rightarrow> extern \<Rightarrow> pyval \<Rightarrow> exn + pyval" where
  "parse_retry_after m x v =
     (case py_int v of
        Inr seconds \<Rightarrow> Inr (PyInt seconds)
      | Inl e \<Rightarrow>
          if \<not> is_ValueError e then Inl e
          else
            (case parse_date_block x v of
               Inr seconds \<Rightarrow> Inr seconds
             | Inl e' \<Rightarrow>
                 (case load_global ''parser'' of
                    Inl ne \<Rightarrow> Inl ne
                  | Inr _ \<Rightarrow>
                      if e' = ParserError then Inr (get_default_retry_after_delay m)
                      else Inl e')))"

subsection \<open>Integers that meet a float\<close>

text \<open>
  Clock readings are floats. Adding or multiplying an \<^verbatim>\<open>int\<close> and a float first
  converts the integer to a float, rounding to nearest, and that raises
  \<^verbatim>\<open>OverflowError\<close> when the integer rounds beyond the largest float: from
  \<open>2 ^ 1024 - 2 ^ 970\<close> on, in absolute value. Below that bound the arithmetic is taken
  exactly.
\<close>

definition float_overflow :: "int \<Rightarrow> bool" where
  "float_overflow n = (2 ^ 1024 - 2 ^ 970 \<le> \<bar>n\<bar>)"

subsection \<open>The refill task\<close>

text \<open>\<^verbatim>\<open>int(x)\<close> on a number truncates towards zero.\<close>

definition trunc :: "rat \<Rightarrow> int" where
  "trunc x = (if 0 \<le> x then \<lfloor>x\<rfloor> else \<lceil>x\<rceil>)"

definition set_pc :: "manager \<Rightarrow> rm_pc \<Rightarrow> manager" where
  "set_pc m p = m\<lparr>rate_manager_task := map_option (\<lambda>t. t\<lparr>pc := p\<rparr>) (rate_manager_task m)\<rparr>"

text \<open>
  Lines 183 to 203, from the test of the bucket to the interval sleep. An exception
  (\<^verbatim>\<open>OverflowError\<close> out of the product of line 186, \<^verbatim>\<open>QueueFull\<close> out of
  \<^verbatim>\<open>put_nowait\<close>) is caught by \<^verbatim>\<open>except Exception\<close>, which logs it and ends the
  task.
\<close>

definition rm_refill :: "manager \<Rightarrow> rat \<Rightarrow> rat \<Rightarrow> rat \<Rightarrow> manager" where
  "rm_refill m sleep last_check_end now =
     (case token_queue m of
        None \<Rightarrow> set_pc m RM_Finished
      | Some q \<Rightarrow>
          if \<not> (full q \<or> time_set (retry_after_time m)) then
            (case rate_limit m of
               None \<Rightarrow> set_pc m RM_Finished
             | Some rate \<Rightarrow>
                 if float_overflow rate then set_pc m RM_Finished
                 else
                 let time_tokens = of_int rate * (now - last_check_end);
                     max_tokens = maxsize q - qsize q;
                     new_tokens = trunc (min time_tokens (of_int max_tokens))
                 in (case put_all q (py_range new_tokens) of
                       (Some e, q') \<Rightarrow> set_pc (m\<lparr>token_queue := Some q'\<rparr>) RM_Finished
                     | (None, q') \<Rightarrow>
                         set_pc (m\<lparr>token_queue := Some q'\<rparr>) (RM_IntervalSleep sleep now)))
          else set_pc m (RM_IntervalSleep sleep now))"

text \<open>
  One turn of \<^verbatim>\<open>while True\<close> from line 168, where \<open>now\<close> is read, to the next
  \<^verbatim>\<open>await\<close>. A deadline that is \<^verbatim>\<open>None\<close> or \<^verbatim>\<open>0.0\<close> is false. In the penalty
  branch the task sleeps with the same \<open>now\<close> and goes on at line 183 when it wakes.
\<close>

definition rm_loop :: "manager \<Rightarrow> rat \<Rightarrow> rat \<Rightarrow> rat \<Rightarrow> manager" where
  "rm_loop m sleep last_check_end now =
     (case retry_after_time m of
        None \<Rightarrow> rm_refill m sleep last_check_end now
      | Some deadline \<Rightarrow>
          if deadline = 0 then rm_refill m sleep last_check_end now
          else if deadline \<le> now then
            rm_refill (m\<lparr>retry_after_event := True, retry_after_time := None\<rparr>)
              sleep last_check_end now
          else set_pc m (RM_PenaltySleep sleep last_check_end now))"

text \<open>
  The start of the coroutine, lines 152 to 165, and then the first turn of the loop:
  \<open>t1\<close> is the reading stored in \<open>last_check_end\<close>, \<open>t2\<close> the loop's first \<open>now\<close>.
\<close>

definition rm_start :: "manager \<Rightarrow> rat \<Rightarrow> rat \<Rightarrow> manager" where
  "rm_start m t1 t2 =
     (if \<not> enabled (rate_limit m) then set_pc m RM_Finished
      else
        (case token_queue m of
           None \<Rightarrow> set_pc m RM_Finished
         | Some q \<Rightarrow>
             (case sleep_duration m of
                Inl e \<Rightarrow> set_pc m RM_Finished
              | Inr None \<Rightarrow> set_pc m RM_Finished
              | Inr (Some sleep) \<Rightarrow>
                  (case put_all q (py_range (maxsize q)) of
                     (Some e, q') \<Rightarrow> set_pc (m\<lparr>token_queue := Some q'\<rparr>) RM_Finished
                   | (None, q') \<Rightarrow> rm_loop (m\<lparr>token_queue := Some q'\<rparr>) sleep t1 t2))))"

text \<open>
  The event loop resumes the task: it runs to its next \<^verbatim>\<open>await\<close>. A task whose
  cancellation was requested gets \<^verbatim>\<open>CancelledError\<close> instead and ends. \<open>t1\<close> and \<open>t2\<close>
  are the clock readings the segment takes, in order.
\<close>

definition rm_resume :: "manager \<Rightarrow> rat \<Rightarrow> rat \<Rightarrow> manager" where
  "rm_resume m t1 t2 =
     (case rate_manager_task m of
        None \<Rightarrow> m
      | Some t \<Rightarrow>
          if pc t = RM_Finished then m
          else if must_cancel t then
            m\<lparr>rate_manager_task := Some \<lparr>pc = RM_Finished, must_cancel = False\<rparr>\<rparr>
          else
            (case pc t of
               RM_Created \<Rightarrow> rm_start m t1 t2
             | RM_PenaltySleep sleep last_check_end now \<Rightarrow> rm_refill m sleep last_check_end now
             | RM_IntervalSleep sleep last_check_end \<Rightarrow> rm_loop m sleep last_check_end t1
             | RM_Finished \<Rightarrow> m))"

subsection \<open>Acquiring a token, and the throttling response\<close>

text \<open>
  The ceiling test of \<^verbatim>\<open>_get_token\<close>, lines 221 to 223. The class it raises is named
  \<^verbatim>\<open>MaximumRequestsExceeded\<close> and the message reads \<^verbatim>\<open>self_requests\<close>.
\<close>

definition get_token_check :: "manager \<Rightarrow> exn + unit" where
  "get_token_check m =
     (if truthy (get_max_requests m) \<and> py_eq (PyInt (self_requests m)) (get_max_requests m) then
        (case load_global ''MaximumRequestsExceeded'' of
           Inl e \<Rightarrow> Inl e
         | Inr _ \<Rightarrow>
             (case load_global ''self_requests'' of
                Inl e \<Rightarrow> Inl e
              | Inr _ \<Rightarrow> Inl MaxRequestsExceededError))
      else Inr ())"

text \<open>\<^verbatim>\<open>await self._token_queue.get()\<close> once the queue is not empty.\<close>

definition queue_get :: "queue \<Rightarrow> queue" where
  "queue_get q = (case items q of [] \<Rightarrow> q | i # rest \<Rightarrow> q\<lparr>items := rest\<rparr>)"

text \<open>
  Lines 277 to 281, the response with status 429: \<open>hdr\<close> is the Retry-After header, if the
  response has one, and \<open>now\<close> the reading of line 280. Adding a value that is not a
  number to the reading is a \<^verbatim>\<open>TypeError\<close>, adding an integer too large for a float an
  \<^verbatim>\<open>OverflowError\<close>; either is raised by line 280, before the deadline is stored and
  before the event is cleared.
\<close>

definition handle_429 :: "manager \<Rightarrow> extern \<Rightarrow> rat \<Rightarrow> string option \<Rightarrow> exn + manager" where
  "handle_429 m x now hdr =
     (let retry_after = (case hdr of Some s \<Rightarrow> PyStr s | None \<Rightarrow> get_default_retry_after_delay m)
      in case parse_retry_after m x retry_after of
           Inl e \<Rightarrow> Inl e
         | Inr (PyInt retry_after_secs) \<Rightarrow>
             if float_overflow retry_after_secs then Inl OverflowError
             else Inr (m\<lparr>retry_after_time := Some (now + of_int retry_after_secs),
                          retry_after_event := False\<rparr>)
         | Inr _ \<Rightarrow> Inl TypeError)"

subsection \<open>Closing the manager\<close>

datatype effect = Log_info | Task_cancel | Session_close

text \<open>\<^verbatim>\<open>Task.cancel()\<close>: nothing happens to a task that is done.\<close>

definition cancel :: "task \<Rightarrow> task" where
  "cancel t = (if pc t = RM_Finished then t else t\<lparr>must_cancel := True\<rparr>)"

text \<open>
  \<^verbatim>\<open>close()\<close> at clock reading \<open>now\<close>. The result is the exception raised, if any,
  the manager, and the calls made in order. The division in the log line fails when no
  time has passed. Whatever the session's own \<^verbatim>\<open>close()\<close> raises is swallowed by the
  bare \<^verbatim>\<open>except\<close>. \<^verbatim>\<open>self._rate_manager\<close> is a
  bound method and never \<^verbatim>\<open>None\<close>; without a refill task \<^verbatim>\<open>self._rate_manager_task\<close>
  is the object \<^verbatim>\<open>__getattr__\<close> returns, which has no \<^verbatim>\<open>cancel\<close>.
\<close>

definition close :: "manager \<Rightarrow> rat \<Rightarrow> exn option \<times> manager \<times> effect list" where
  "close m now =
     (let secs = now - start m in
      if secs = 0 then (Some ZeroDivisionError, m, [])
      else
        (case rate_manager_task m of
           None \<Rightarrow> (Some (AttributeError ''cancel''), m, [Log_info])
         | Some t \<Rightarrow>
             let m1 = m\<lparr>rate_manager_task := Some (cancel t)\<rparr> in
             (case self_session m1 of
                None \<Rightarrow> (None, m1\<lparr>self_session := None\<rparr>, [Log_info, Task_cancel])
              | Some s \<Rightarrow>
                  if \<not> closed s
                  then (None, m1\<lparr>self_session := None\<rparr>, [Log_info, Task_cancel, Session_close])
                  else (None, m1\<lparr>self_session := None\<rparr>, [Log_info, Task_cancel]))))"

subsection \<open>The request loop\<close>

text \<open>
  What the environment does during one attempt: whether the two \<^verbatim>\<open>await\<close> of
  \<^verbatim>\<open>_get_token\<close> ever return, what the transport call of lines 267 to 270 gives (a
  response with its status, its Retry-After header and its body text, an exception, or
  nothing ever), and the clock reading of line 280. Method, path and the other arguments only reach the
  transport.
\<close>

datatype acquire = Granted | Never

datatype reply = Response int "string option" string | Raises exn | Silent

record attempt =
  acquired :: acquire
  reply :: reply
  monotonic :: rat

text \<open>\<^verbatim>\<open>resp.raise_for_status()\<close> of aiohttp raises for a status of 400 or more.\<close>

definition raise_for_status :: "int \<Rightarrow> exn + unit" where
  "raise_for_status status = (if 400 \<le> status then Inl (ClientResponseError status) else Inr ())"

text \<open>The \<^verbatim>\<open>session\<close> property makes the session on first use.\<close>

definition get_session :: "manager \<Rightarrow> manager" where
  "get_session m =
     (case self_session m of None \<Rightarrow> m\<lparr>self_session := Some \<lparr>closed = False\<rparr>\<rparr> | Some s \<Rightarrow> m)"

text \<open>
  \<^verbatim>\<open>_get_token\<close> as one request sees it. With rate limiting on it waits for the event and
  for a token; a wait that never ends suspends the request for good. The token it is given
  leaves the queue.
\<close>

definition get_token :: "manager \<Rightarrow> acquire \<Rightarrow> (exn + manager) option" where
  "get_token m a =
     (case get_token_check m of
        Inl e \<Rightarrow> Some (Inl e)
      | Inr _ \<Rightarrow>
          if enabled (rate_limit m) then
            (case a of
               Never \<Rightarrow> None
             | Granted \<Rightarrow>
                 (case token_queue m of
                    None \<Rightarrow> Some (Inl (AttributeError ''get''))
                  | Some q \<Rightarrow> Some (Inr (m\<lparr>token_queue := Some (queue_get q)\<rparr>))))
          else Some (Inr m))"

datatype body_result = Return string | Continue | Exc exn | Suspended

text \<open>The body of the \<^verbatim>\<open>try\<close>, lines 265 to 285.\<close>

definition try_body :: "manager \<Rightarrow> extern \<Rightarrow> attempt \<Rightarrow> body_result \<times> manager" where
  "try_body m x a =
     (case get_token m (acquired a) of
        None \<Rightarrow> (Suspended, m)
      | Some (Inl e) \<Rightarrow> (Exc e, m)
      | Some (Inr m0) \<Rightarrow>
          let m1 = get_session m0 in
          (case reply a of
             Raises e \<Rightarrow> (Exc e, m1)
           | Silent \<Rightarrow> (Suspended, m1)
           | Response status hdr resp_text \<Rightarrow>
               (case (if resp_text \<noteq> [] then json_deserialize m1 resp_text else Inr ''{}'') of
                  Inl e \<Rightarrow> (Exc e, m1)
                | Inr resp_json \<Rightarrow>
                    if status = 429 then
                      (case handle_429 m1 x (monotonic a) hdr of
                         Inl e \<Rightarrow> (Exc e, m1)
                       | Inr m2 \<Rightarrow> (Continue, m2))
                    else
                      (case raise_for_status status of
                         Inl e \<Rightarrow> (Exc e, m1)
                       | Inr _ \<Rightarrow> (Return resp_json, m1)))))"

text \<open>What \<^verbatim>\<open>try_body\<close> leaves alone: the configuration and the request counter.\<close>

definition same_config :: "manager \<Rightarrow> manager \<Rightarrow> bool" where
  "same_config m m' =
     (retries m' = retries m \<and> should_retry m' = should_retry m \<and>
      json_deserialize m' = json_deserialize m \<and> rate_limit m' = rate_limit m \<and>
      self_requests m' = self_requests m \<and> max_requests m' = max_requests m)"

lemma same_config_refl: "same_config a a"
  by (simp add: same_config_def)

lemma same_config_trans: "same_config a b \<Longrightarrow> same_config b c \<Longrightarrow> same_config a c"
  by (simp add: same_config_def)

lemma handle_429_config: "handle_429 m x now hdr = Inr m' \<Longrightarrow> same_config m m'"
  unfolding handle_429_def Let_def same_config_def
  by (auto split: sum.splits pyval.splits if_splits)

lemma get_token_config: "get_token m a = Some (Inr m') \<Longrightarrow> same_config m m'"
  unfolding get_token_def same_config_def
  by (auto split: sum.splits if_splits acquire.splits option.splits)

lemma get_session_config: "same_config m (get_session m)"
  by (simp add: get_session_def same_config_def split: option.splits)

lemma try_body_config:
  assumes "try_body m x a = (r, m')"
  shows "same_config m m'"
proof (cases "get_token m (acquired a)")
  case None
  with assms show ?thesis by (simp add: try_body_def same_config_refl)
next
  case (Some t)
  show ?thesis
  proof (cases t)
    case (Inl e)
    with Some assms show ?thesis by (simp add: try_body_def same_config_refl)
  next
    case (Inr m0)
    have c1: "same_config m (get_session m0)"
      using get_token_config[of m "acquired a" m0] get_session_config[of m0] Some Inr
      by (blast intro: same_config_trans)
    have "m' = get_session m0 \<or> (\<exists>hdr. handle_429 (get_session m0) x (monotonic a) hdr = Inr m')"
      using assms Some Inr
      by (auto simp: try_body_def Let_def split: reply.splits sum.splits if_splits)
    then show ?thesis
      using c1 handle_429_config by (blast intro: same_config_trans)
  qed
qed

text \<open>
  \<^verbatim>\<open>request\<close>: the loop of lines 259 to 294. \<open>env k\<close> is what the environment does
  during attempt \<open>k\<close>, counted from one like the local \<open>requests\<close>. The handler catches
  what derives from \<^verbatim>\<open>Exception\<close> and raises it again unless \<^verbatim>\<open>should_retry\<close>
  says otherwise. The result keeps, next to the outcome and the manager, the value of
  \<open>requests\<close> at the end and how each attempt's \<^verbatim>\<open>try\<close> body ended.
\<close>

datatype outcome = Returned string | Raised exn | Hangs

record request_result =
  outcome :: outcome
  manager_after :: manager
  attempts :: nat
  results :: "body_result list"

function request_loop ::
  "manager \<Rightarrow> extern \<Rightarrow> (nat \<Rightarrow> attempt) \<Rightarrow> nat \<Rightarrow> body_result list \<Rightarrow> request_result" where
  "request_loop m x env requests trace =
     (if int requests < retries m then
        (case try_body (m\<lparr>self_requests := self_requests m + 1\<rparr>) x (env (requests + 1)) of
           (Return resp_json, m') \<Rightarrow>
             \<lparr>outcome = Returned resp_json, manager_after = m', attempts = requests + 1,
              results = trace @ [Return resp_json]\<rparr>
         | (Continue, m') \<Rightarrow> request_loop m' x env (requests + 1) (trace @ [Continue])
         | (Exc e, m') \<Rightarrow>
             if is_Exception e \<and> should_retry m' e
             then request_loop m' x env (requests + 1) (trace @ [Exc e])
             else \<lparr>outcome = Raised e, manager_after = m', attempts = requests + 1,
                   results = trace @ [Exc e]\<rparr>
         | (Suspended, m') \<Rightarrow>
             \<lparr>outcome = Hangs, manager_after = m', attempts = requests + 1,
              results = trace @ [Suspended]\<rparr>)
      else \<lparr>outcome = Raised RetriesExceededError, manager_after = m, attempts = requests,
            results = trace\<rparr>)"
  by pat_completeness auto
termination
proof (relation "measure (\<lambda>(m, x, env, requests, trace). nat (retries m - int requests))")
  show "wf (measure (\<lambda>(m, x, env, requests, trace). nat (retries m - int requests)))"
    by simp
next
  fix m :: manager and x env and requests :: nat and trace :: "body_result list" and r m'
  assume lt: "int requests < retries m"
    and tb: "(r, m') = try_body (m\<lparr>self_requests := self_requests m + 1\<rparr>) x (env (requests + 1))"
  have "retries m' = retries m"
    using try_body_config[OF tb[symmetric]] by (simp add: same_config_def)
  with lt show "((m', x, env, requests + 1, trace @ [Continue]), m, x, env, requests, trace)
      \<in> measure (\<lambda>(m, x, env, requests, trace). nat (retries m - int requests))"
    by simp
next
  fix m :: manager and x env and requests :: nat and trace :: "body_result list" and r m' e
  assume lt: "int requests < retries m"
    and tb: "(r, m') = try_body (m\<lparr>self_requests := self_requests m + 1\<rparr>) x (env (requests + 1))"
  have "retries m' = retries m"
    using try_body_config[OF tb[symmetric]] by (simp add: same_config_def)
  with lt show "((m', x, env, requests + 1, trace @ [Exc e]), m, x, env, requests, trace)
      \<in> measure (\<lambda>(m, x, env, requests, trace). nat (retries m - int requests))"
    by simp
qed

declare request_loop.simps [simp del]

definition request :: "manager \<Rightarrow> extern \<Rightarrow> (nat \<Rightarrow> attempt) \<Rightarrow> request_result" where
  "request m x env = request_loop m x env 0 []"

subsection \<open>The tasks on one event loop\<close>

text \<open>
  The tasks share the manager and run one at a time, each from one \<^verbatim>\<open>await\<close> to the
  next. A consumer is one call of \<^verbatim>\<open>_get_token\<close>: it waits for the event, is released
  when the event is set (\<^verbatim>\<open>Event.set\<close> wakes every waiter, and a woken waiter goes on
  even if the event is cleared again before it runs), waits for a token, and has acquired
  at the reading at which \<^verbatim>\<open>_get_token\<close> returns.
\<close>

datatype cstate = Idle | Waiting | Released | Getting | Acquired rat | Failed exn

record system =
  mgr :: manager
  ext :: extern
  clock :: rat
  consumers :: "nat \<Rightarrow> cstate"

text \<open>Lines 229 to 232: take a token, or wait for one.\<close>

definition enter_queue :: "manager \<Rightarrow> rat \<Rightarrow> cstate \<times> manager" where
  "enter_queue m now =
     (case token_queue m of
        None \<Rightarrow> (Failed (AttributeError ''get''), m)
      | Some q \<Rightarrow>
          if items q = [] then (Getting, m)
          else (Acquired now, m\<lparr>token_queue := Some (queue_get q)\<rparr>))"

text \<open>
  A request starts an attempt: line 263 and then \<^verbatim>\<open>_get_token\<close> up to its first
  \<^verbatim>\<open>await\<close> that has to wait.
\<close>

definition call_get_token :: "manager \<Rightarrow> rat \<Rightarrow> cstate \<times> manager" where
  "call_get_token m now =
     (let m1 = m\<lparr>self_requests := self_requests m + 1\<rparr> in
      case get_token_check m1 of
        Inl e \<Rightarrow> (Failed e, m1)
      | Inr _ \<Rightarrow>
          if enabled (rate_limit m1) then
            (if retry_after_event m1 then enter_queue m1 now else (Waiting, m1))
          else (Acquired now, m1))"

definition release_waiters :: "(nat \<Rightarrow> cstate) \<Rightarrow> nat \<Rightarrow> cstate" where
  "release_waiters cs = (\<lambda>i. if cs i = Waiting then Released else cs i)"

text \<open>
  The steps of the event loop, each with the clock readings it takes. \<open>RM\<close> resumes the
  refill task, \<open>Call i\<close> starts consumer \<open>i\<close>, \<open>Wake i\<close> resumes it, \<open>Throttle\<close> is a
  request handling a response with status 429 and the given Retry-After header, and
  \<open>Close\<close> is \<^verbatim>\<open>close()\<close>. A step is refused (\<open>None\<close>) when its reading lies before
  the clock or its task cannot run. A sleeping refill task may be resumed at any later
  reading.
\<close>

datatype label =
    RM rat rat
  | Call nat rat
  | Wake nat rat
  | Throttle rat "string option"
  | Close rat

fun is_RM :: "label \<Rightarrow> bool" where
  "is_RM (RM t1 t2) = True"
| "is_RM _ = False"


fun step :: "label \<Rightarrow> system \<Rightarrow> system option" where
  "step (RM t1 t2) s =
     (if clock s \<le> t1 \<and> t1 \<le> t2 then
        (let m' = rm_resume (mgr s) t1 t2;
             cs' = (if retry_after_event m' \<and> \<not> retry_after_event (mgr s)
                    then release_waiters (consumers s) else consumers s)
         in Some (s\<lparr>mgr := m', clock := t2, consumers := cs'\<rparr>))
      else None)"
| "step (Call i now) s =
     (if clock s \<le> now \<and> consumers s i = Idle then
        (case call_get_token (mgr s) now of
           (c, m') \<Rightarrow> Some (s\<lparr>mgr := m', clock := now, consumers := (consumers s)(i := c)\<rparr>))
      else None)"
| "step (Wake i now) s =
     (if clock s \<le> now \<and> (consumers s i = Released \<or> consumers s i = Getting) then
        (case enter_queue (mgr s) now of
           (c, m') \<Rightarrow> Some (s\<lparr>mgr := m', clock := now, consumers := (consumers s)(i := c)\<rparr>))
      else None)"
| "step (Throttle now hdr) s =
     (if clock s \<le> now then
        (case handle_429 (mgr s) (ext s) now hdr of
           Inl e \<Rightarrow> Some (s\<lparr>clock := now\<rparr>)
         | Inr m' \<Rightarrow> Some (s\<lparr>mgr := m', clock := now\<rparr>))
      else None)"
| "step (Close now) s =
     (if clock s \<le> now then
        (case close (mgr s) now of (e, m', effects) \<Rightarrow> Some (s\<lparr>mgr := m', clock := now\<rparr>))
      else None)"

fun run :: "label list \<Rightarrow> system \<Rightarrow> system option" where
  "run [] s = Some s"
| "run (l # ls) s = (case step l s of None \<Rightarrow> None | Some s' \<Rightarrow> run ls s')"

text \<open>The system right after \<^verbatim>\<open>__init__\<close> returned manager \<open>m\<close> at reading \<open>now\<close>.\<close>

definition boot :: "manager \<Rightarrow> extern \<Rightarrow> rat \<Rightarrow> system" where
  "boot m x now = \<lparr>mgr = m, ext = x, clock = now, consumers = (\<lambda>i. Idle)\<rparr>"

definition available :: "system \<Rightarrow> int" where
  "available s = (case token_queue (mgr s) of None \<Rightarrow> 0 | Some q \<Rightarrow> qsize q)"


text \<open>
  For the examples: a deserializer that takes a text starting with a brace and fails on
  any other, as \<^verbatim>\<open>json.loads\<close> does on the texts used below, and an environment without
  a date parser.
\<close>

definition example_loads :: "string \<Rightarrow> exn + string" where
  "example_loads resp_text =
     (case resp_text of
        [] \<Rightarrow> Inl JSONDecodeError
      | c # cs \<Rightarrow> if c = CHR ''{'' then Inr resp_text else Inl JSONDecodeError)"

definition example_extern :: extern where
  "example_extern = \<lparr>dateutil_parse = (\<lambda>s. Inl ParserError), utcnow = 0\<rparr>"

text \<open>
  What one attempt receives, as the hypotheses of the properties below put it. The body
  text of a response \<open>decodes\<close> when it is empty or \<^verbatim>\<open>json_deserialize\<close> returns a value
  for it. An attempt \<open>fails_with_status\<close> when its token waits return and the transport
  answers with that status, which is an error status other than 429, and a body that
  decodes. \<open>has_queue\<close> holds of every manager \<^verbatim>\<open>__init__\<close> makes: with rate limiting
  on, the queue exists. \<open>ceiling_passes\<close> says that the test of lines 221 to 223 does not
  raise when the request counter has the value \<open>n\<close>.
\<close>

definition decodes :: "manager \<Rightarrow> string \<Rightarrow> bool" where
  "decodes m resp_text =
     (resp_text = [] \<or> (case json_deserialize m resp_text of Inr resp_json \<Rightarrow> True | Inl e \<Rightarrow> False))"

definition fails_with_status :: "manager \<Rightarrow> attempt \<Rightarrow> int \<Rightarrow> bool" where
  "fails_with_status m a status =
     (400 \<le> status \<and> status \<noteq> 429 \<and>
      (enabled (rate_limit m) \<longrightarrow> acquired a = Granted) \<and>
      (case reply a of
         Response st hdr resp_text \<Rightarrow> st = status \<and> decodes m resp_text
       | _ \<Rightarrow> False))"

definition has_queue :: "manager \<Rightarrow> bool" where
  "has_queue m = (enabled (rate_limit m) \<longrightarrow> token_queue m \<noteq> None)"

definition ceiling_passes :: "manager \<Rightarrow> int \<Rightarrow> bool" where
  "ceiling_passes m n = (get_token_check (m\<lparr>self_requests := n\<rparr>) = Inr ())"

text \<open>
  A transport that times out on every attempt, and one that answers every attempt with
  status 429 and \<^verbatim>\<open>Retry-After: 1\<close>.
\<close>

definition timing_out :: "nat \<Rightarrow> attempt" where
  "timing_out k = \<lparr>acquired = Granted, reply = Raises TimeoutError, monotonic = 1\<rparr>"

definition throttling :: "nat \<Rightarrow> attempt" where
  "throttling k = \<lparr>acquired = Granted, reply = Response 429 (Some ''1'') [], monotonic = 1\<rparr>"


text \<open>The transport answering every attempt with the same status and body; tokens are granted.\<close>

definition always :: "int \<Rightarrow> string \<Rightarrow> nat \<Rightarrow> attempt" where
  "always status resp_text k =
     \<lparr>acquired = Granted, reply = Response status None resp_text, monotonic = 1\<rparr>"

text \<open>
  The bound on the bucket: its queue, if it has one, has the capacity \<open>cap\<close> and holds no
  more tokens than that.
\<close>

definition bucket_ok :: "int \<Rightarrow> manager \<Rightarrow> bool" where
  "bucket_ok cap m =
     (case token_queue m of None \<Rightarrow> True | Some q \<Rightarrow> maxsize q = cap \<and> qsize q \<le> cap)"

definition tokens :: "manager \<Rightarrow> int" where
  "tokens m = (case token_queue m of None \<Rightarrow> 0 | Some q \<Rightarrow> qsize q)"

text \<open>A system with three requests per second and a burst of two, and one without rate limit.\<close>

definition small_bucket :: system where
  "small_bucket = boot (init default_retry 3 (Some 3) 2 example_loads 0) example_extern 0"



text \<open>Two managers that agree on the event, the deadline and the rate limit.\<close>

definition same_gate :: "manager \<Rightarrow> manager \<Rightarrow> bool" where
  "same_gate m m' =
     (retry_after_event m' = retry_after_event m \<and> retry_after_time m' = retry_after_time m \<and>
      rate_limit m' = rate_limit m)"



text \<open>A manager with the constructor's defaults whose session is in use, and the same closed.\<close>

definition opened :: manager where
  "opened = get_session (init_default example_loads 0)"

definition closed_once :: manager where
  "closed_once = fst (snd (close opened 1))"

section \<open>Properties\<close>

subsection \<open>The Retry-After parser\<close>

lemmas int_of_str_eval =
  int_of_str_def strip_def is_space_def py_digits_def is_digit_def digit_of_def

lemma parse_retry_after_not_integer:
  "py_int v = Inl ValueError \<Longrightarrow> parse_retry_after m x v = Inl (NameError ''parser'')"
  by (simp add: parse_retry_after_def parse_date_block_def load_global_def module_globals_def)

text \<open>
  C4. \<^verbatim>\<open>_parse_retry_after\<close> maps \<^verbatim>\<open>"120"\<close> to 120. A date in the past is not mapped
  to 0: the name \<^verbatim>\<open>parser\<close> is not bound, so the call ends in \<^verbatim>\<open>NameError\<close>. The
  integer form is returned as it is, also when it is negative.
\<close>

theorem parse_retry_after_examples:
  "parse_retry_after m x (PyStr ''120'') = Inr (PyInt 120) \<and>
   parse_retry_after m x (PyStr ''Wed, 21 Oct 2015 07:28:00 GMT'') = Inl (NameError ''parser'') \<and>
   parse_retry_after m x (PyStr ''-5'') = Inr (PyInt (- 5))"
  by (simp add: parse_retry_after_def parse_date_block_def load_global_def module_globals_def
      int_of_str_eval)

text \<open>
  C5. A string that is neither an integer nor a date does not give the default delay:
  \<^verbatim>\<open>_parse_retry_after\<close> raises \<^verbatim>\<open>NameError\<close> on it, here on \<^verbatim>\<open>"soon"\<close>.
\<close>

theorem parse_retry_after_unparseable:
  "parse_retry_after m x (PyStr ''soon'') = Inl (NameError ''parser'')"
  by (rule parse_retry_after_not_integer) (simp add: int_of_str_eval)

subsection \<open>The constructor\<close>

text \<open>
  C6. The constructor does not enforce a minimum burst size: with a burst size of 1 or 0
  the token queue is made with that capacity, although the class declares a minimum of 2.
\<close>

theorem init_burst_below_minimum:
  "map_option maxsize (token_queue (init default_retry 3 (Some 3) 1 example_loads 0)) = Some 1 \<and>
   map_option maxsize (token_queue (init default_retry 3 (Some 3) 0 example_loads 0)) = Some 0 \<and>
   rate_limit_min_burst_size = 2"
  by (simp add: init_def enabled_def rate_limit_min_burst_size_def)

subsection \<open>The request ceiling\<close>

lemmas request_eval =
  request_def request_loop.simps try_body_def get_token_def get_token_check_def
  get_max_requests_def getattr_fallback_def shortcuts_def get_session_def
  raise_for_status_def queue_get_def retry_for_statuses_def init_default_def init_def
  enabled_def load_global_def module_globals_def example_loads_def

text \<open>
  C7. With a ceiling of one request set on the manager, the first dispatch reaches the
  ceiling and the request ends in \<^verbatim>\<open>NameError\<close>, not in
  \<^verbatim>\<open>MaxRequestsExceededError\<close>: the class named in the \<^verbatim>\<open>raise\<close> does not exist.
\<close>

theorem ceiling_raises_name_error:
  "outcome (request ((init_default example_loads 0)\<lparr>max_requests := Some (PyInt 1)\<rparr>) example_extern
      (\<lambda>k. \<lparr>acquired = Granted, reply = Response 200 None ''{}'', monotonic = 1\<rparr>))
   = Raised (NameError ''MaximumRequestsExceeded'')"
  by (simp add: request_eval)

subsection \<open>Closing twice\<close>

lemma cancel_idem: "cancel (cancel t) = cancel t"
  by (simp add: cancel_def)

text \<open>
  C9, amended. After a first \<^verbatim>\<open>close()\<close> that completed without an exception, a second
  \<^verbatim>\<open>close()\<close> at a later reading of the monotonic clock, whether or not the event loop
  has resumed the cancelled refill task in between, raises nothing, leaves the manager as
  it is, and does not close the session again: it logs the summary and calls
  \<^verbatim>\<open>cancel()\<close> on the task, which changes nothing.
\<close>

theorem close_twice:
  assumes "close m t1 = (None, m1, effects1)" and "start m \<le> t1" and "t1 \<le> t2"
    and "m2 = m1 \<or> m2 = rm_resume m1 ta tb"
  shows "close m2 t2 = (None, m2, [Log_info, Task_cancel]) \<and>
         Session_close \<notin> set (snd (snd (close m2 t2)))"
proof -
  from assms(1) have ne: "t1 - start m \<noteq> 0"
    by (auto simp: close_def Let_def split: if_splits)
  from assms(1) ne obtain t where t: "rate_manager_task m = Some t"
    by (cases "rate_manager_task m") (auto simp: close_def Let_def)
  from assms(1) ne t have m1: "m1 = m\<lparr>rate_manager_task := Some (cancel t), self_session := None\<rparr>"
    by (auto simp: close_def Let_def split: option.splits if_splits)
  have "rm_resume m1 ta tb = m1 \<or>
        rm_resume m1 ta tb = m1\<lparr>rate_manager_task := Some \<lparr>pc = RM_Finished, must_cancel = False\<rparr>\<rparr>"
    by (simp add: rm_resume_def m1 cancel_def)
  with assms(4) have m2: "m2 = m1 \<or>
        m2 = m1\<lparr>rate_manager_task := Some \<lparr>pc = RM_Finished, must_cancel = False\<rparr>\<rparr>"
    by auto
  have "t2 - start m2 \<noteq> 0" using ne assms(2,3) m1 m2 by auto
  then have "close m2 t2 = (None, m2, [Log_info, Task_cancel])"
    using m2 by (auto simp: close_def Let_def m1 cancel_def)
  then show ?thesis by simp
qed

theorem close_twice_witness:
  "close opened 1 = (None, closed_once, [Log_info, Task_cancel, Session_close]) \<and>
   close closed_once 2 = (None, closed_once, [Log_info, Task_cancel]) \<and>
   Session_close \<notin> set (snd (snd (close closed_once 2))) \<and>
   close (rm_resume closed_once 1 1) 2 = (None, rm_resume closed_once 1 1, [Log_info, Task_cancel])"
proof -
  have c1: "close opened 1 = (None, closed_once, [Log_info, Task_cancel, Session_close])"
    by (simp add: closed_once_def opened_def close_def get_session_def init_default_def
        init_def enabled_def cancel_def Let_def)
  have c2: "start opened \<le> 1"
    by (simp add: opened_def get_session_def init_default_def init_def)
  show ?thesis
    using c1 close_twice [OF c1 c2, of 2 closed_once 1 1]
      close_twice [OF c1 c2, of 2 "rm_resume closed_once 1 1" 1 1]
    by simp
qed

text \<open>
  C9 as stated fails: the second \<^verbatim>\<open>close()\<close> repeats two of the calls of the first, the
  log of the summary and \<^verbatim>\<open>cancel()\<close> on the refill task.
\<close>

theorem close_twice_counterexample:
  "close opened 1 = (None, closed_once, [Log_info, Task_cancel, Session_close]) \<and>
   snd (snd (close closed_once 2)) = [Log_info, Task_cancel]"
  by (simp add: closed_once_def opened_def close_def get_session_def init_default_def
      init_def enabled_def cancel_def Let_def)

subsection \<open>The request loop\<close>

lemma request_loop_done:
  "\<not> int k < retries m \<Longrightarrow>
   request_loop m x env k tr =
     \<lparr>outcome = Raised RetriesExceededError, manager_after = m, attempts = k, results = tr\<rparr>"
  by (subst request_loop.simps) simp

lemma request_loop_return:
  "int k < retries m \<Longrightarrow>
   try_body (m\<lparr>self_requests := self_requests m + 1\<rparr>) x (env (k + 1)) = (Return j, m') \<Longrightarrow>
   request_loop m x env k tr =
     \<lparr>outcome = Returned j, manager_after = m', attempts = k + 1, results = tr @ [Return j]\<rparr>"
  by (subst request_loop.simps) simp

lemma request_loop_suspended:
  "int k < retries m \<Longrightarrow>
   try_body (m\<lparr>self_requests := self_requests m + 1\<rparr>) x (env (k + 1)) = (Suspended, m') \<Longrightarrow>
   request_loop m x env k tr =
     \<lparr>outcome = Hangs, manager_after = m', attempts = k + 1, results = tr @ [Suspended]\<rparr>"
  by (subst request_loop.simps) simp

lemma request_loop_continue:
  "int k < retries m \<Longrightarrow>
   try_body (m\<lparr>self_requests := self_requests m + 1\<rparr>) x (env (k + 1)) = (Continue, m') \<Longrightarrow>
   request_loop m x env k tr = request_loop m' x env (k + 1) (tr @ [Continue])"
  by (subst request_loop.simps) simp

lemma request_loop_retry:
  "int k < retries m \<Longrightarrow>
   try_body (m\<lparr>self_requests := self_requests m + 1\<rparr>) x (env (k + 1)) = (Exc e, m') \<Longrightarrow>
   is_Exception e \<and> should_retry m' e \<Longrightarrow>
   request_loop m x env k tr = request_loop m' x env (k + 1) (tr @ [Exc e])"
  by (subst request_loop.simps) simp

lemma request_loop_raise:
  "int k < retries m \<Longrightarrow>
   try_body (m\<lparr>self_requests := self_requests m + 1\<rparr>) x (env (k + 1)) = (Exc e, m') \<Longrightarrow>
   \<not> (is_Exception e \<and> should_retry m' e) \<Longrightarrow>
   request_loop m x env k tr =
     \<lparr>outcome = Raised e, manager_after = m', attempts = k + 1, results = tr @ [Exc e]\<rparr>"
  by (subst request_loop.simps) auto

lemma get_token_granted:
  assumes "get_token_check m = Inr ()" and "has_queue m"
    and "enabled (rate_limit m) \<longrightarrow> a = Granted"
  shows "\<exists>m0. get_token m a = Some (Inr m0) \<and> has_queue m0 \<and> same_config m m0"
proof (cases "enabled (rate_limit m)")
  case False
  with assms show ?thesis by (simp add: get_token_def same_config_refl)
next
  case True
  with assms obtain q where q: "token_queue m = Some q" by (auto simp: has_queue_def)
  let ?m0 = "m\<lparr>token_queue := Some (queue_get q)\<rparr>"
  have "get_token m a = Some (Inr ?m0)" using assms True q by (simp add: get_token_def)
  moreover have "has_queue ?m0" by (simp add: has_queue_def)
  moreover have "same_config m ?m0" by (simp add: same_config_def)
  ultimately show ?thesis by blast
qed

lemma get_session_queue: "has_queue (get_session m) = has_queue m"
  by (simp add: get_session_def has_queue_def split: option.splits)

text \<open>One attempt whose transport call raises.\<close>

lemma try_body_raises:
  assumes "get_token_check m = Inr ()" and "has_queue m"
    and "enabled (rate_limit m) \<longrightarrow> acquired a = Granted"
    and "reply a = Raises e"
  shows "\<exists>m'. try_body m x a = (Exc e, m') \<and> has_queue m' \<and> same_config m m'"
proof -
  from get_token_granted[OF assms(1,2,3)] obtain m0
    where g: "get_token m (acquired a) = Some (Inr m0)" and q: "has_queue m0" and c: "same_config m m0"
    by blast
  have "try_body m x a = (Exc e, get_session m0)"
    using g assms(4) by (simp add: try_body_def)
  moreover have "has_queue (get_session m0)" using q by (simp add: get_session_queue)
  moreover have "same_config m (get_session m0)"
    using c get_session_config by (blast intro: same_config_trans)
  ultimately show ?thesis by blast
qed

text \<open>One attempt that is answered with a status other than 429 and a body that decodes.\<close>

lemma try_body_response:
  assumes "get_token_check m = Inr ()" and "has_queue m"
    and "enabled (rate_limit m) \<longrightarrow> acquired a = Granted"
    and "reply a = Response status hdr resp_text"
    and "(if resp_text \<noteq> [] then json_deserialize m resp_text else Inr ''{}'') = Inr resp_json"
    and "status \<noteq> 429"
  shows "\<exists>m'. try_body m x a =
           (if 400 \<le> status then Exc (ClientResponseError status) else Return resp_json, m') \<and>
         has_queue m' \<and> same_config m m'"
proof -
  from get_token_granted[OF assms(1,2,3)] obtain m0
    where g: "get_token m (acquired a) = Some (Inr m0)" and q: "has_queue m0" and c: "same_config m m0"
    by blast
  have j: "json_deserialize (get_session m0) = json_deserialize m"
    using c get_session_config[of m0] by (simp add: same_config_def)
  have "try_body m x a =
      (if 400 \<le> status then Exc (ClientResponseError status) else Return resp_json, get_session m0)"
    using g assms(4,5,6) j by (auto simp: try_body_def raise_for_status_def Let_def)
  moreover have "has_queue (get_session m0)" using q by (simp add: get_session_queue)
  moreover have "same_config m (get_session m0)"
    using c get_session_config by (blast intro: same_config_trans)
  ultimately show ?thesis by blast
qed

lemma try_body_status:
  assumes "get_token_check m = Inr ()" and "has_queue m" and "fails_with_status m a status"
  shows "\<exists>m'. try_body m x a = (Exc (ClientResponseError status), m') \<and>
         has_queue m' \<and> same_config m m'"
proof -
  from assms(3) obtain hdr resp_text where r: "reply a = Response status hdr resp_text"
    and d: "decodes m resp_text" and st: "400 \<le> status" "status \<noteq> 429"
    and g: "enabled (rate_limit m) \<longrightarrow> acquired a = Granted"
    by (auto simp: fails_with_status_def split: reply.splits)
  have "\<exists>resp_json.
      (if resp_text \<noteq> [] then json_deserialize m resp_text else Inr ''{}'') = Inr resp_json"
    using d by (cases "resp_text = []") (auto simp: decodes_def split: sum.splits)
  then obtain resp_json
    where "(if resp_text \<noteq> [] then json_deserialize m resp_text else Inr ''{}'') = Inr resp_json"
    by blast
  from try_body_response[OF assms(1,2) g r this st(2), of x] st(1) show ?thesis by simp
qed


lemma fails_with_status_cong:
  "json_deserialize m' = json_deserialize m \<Longrightarrow> rate_limit m' = rate_limit m \<Longrightarrow>
   fails_with_status m' a status = fails_with_status m a status"
  by (simp add: fails_with_status_def decodes_def split: reply.splits)

lemma request_loop_exhausts:
  assumes "int j \<le> retries m" and "has_queue m"
    and "\<forall>k. j < k \<and> int k \<le> retries m \<longrightarrow>
           ceiling_passes m (self_requests m + int (k - j)) \<and>
           fails_with_status m (env k) (status k) \<and>
           should_retry m (ClientResponseError (status k))"
  shows "outcome (request_loop m x env j tr) = Raised RetriesExceededError \<and>
         int (attempts (request_loop m x env j tr)) = retries m \<and>
         results (request_loop m x env j tr) =
           tr @ map (\<lambda>k. Exc (ClientResponseError (status k))) [Suc j..<Suc (nat (retries m))] \<and>
         self_requests (manager_after (request_loop m x env j tr)) =
           self_requests m + (retries m - int j)"
  using assms
proof (induction m x env j tr rule: request_loop.induct)
  case (1 m x env requests trace)
  show ?case
  proof (cases "int requests < retries m")
    case False
    with "1.prems"(1) have eq: "int requests = retries m" by simp
    then have "[Suc requests..<Suc (nat (retries m))] = []" by simp
    with False eq show ?thesis by (simp add: request_loop_done)
  next
    case True
    let ?m1 = "m\<lparr>self_requests := self_requests m + 1\<rparr>"
    let ?k = "requests + 1"
    from "1.prems"(3) True
    have hk: "ceiling_passes m (self_requests m + 1)" "fails_with_status m (env ?k) (status ?k)"
      "should_retry m (ClientResponseError (status ?k))"
      by (auto dest: spec[of _ ?k])
    have chk: "get_token_check ?m1 = Inr ()" using hk(1) by (simp add: ceiling_passes_def)
    have q1: "has_queue ?m1" using "1.prems"(2) by (simp add: has_queue_def)
    have f1: "fails_with_status ?m1 (env ?k) (status ?k)"
      using hk(2) fails_with_status_cong[of ?m1 m] by simp
    from try_body_status[OF chk q1 f1, of x] obtain m'
      where tb: "try_body ?m1 x (env ?k) = (Exc (ClientResponseError (status ?k)), m')"
        and q': "has_queue m'" and c': "same_config ?m1 m'"
      by blast
    have cfg: "same_config m (m'\<lparr>self_requests := self_requests m\<rparr>)"
      "self_requests m' = self_requests m + 1" "retries m' = retries m"
      "should_retry m' = should_retry m" "max_requests m' = max_requests m"
      using c' by (simp_all add: same_config_def)
    have retry: "is_Exception (ClientResponseError (status ?k)) \<and>
                 should_retry m' (ClientResponseError (status ?k))"
      using hk(3) cfg by simp
    have unfold: "request_loop m x env requests trace =
        request_loop m' x env ?k (trace @ [Exc (ClientResponseError (status ?k))])"
      using request_loop_retry[of requests m x env "ClientResponseError (status ?k)" m' trace]
        True tb retry by simp
    have le: "int ?k \<le> retries m'" using True cfg by simp
    have rest: "\<forall>k. ?k < k \<and> int k \<le> retries m' \<longrightarrow>
           ceiling_passes m' (self_requests m' + int (k - ?k)) \<and>
           fails_with_status m' (env k) (status k) \<and>
           should_retry m' (ClientResponseError (status k))"
    proof (intro allI impI)
      fix k assume k: "?k < k \<and> int k \<le> retries m'"
      then have k0: "requests < k \<and> int k \<le> retries m" using cfg by simp
      with "1.prems"(3) have h: "ceiling_passes m (self_requests m + int (k - requests))"
        "fails_with_status m (env k) (status k)" "should_retry m (ClientResponseError (status k))"
        by auto
      have n: "self_requests m' + int (k - ?k) = self_requests m + int (k - requests)"
        using k cfg by simp
      have "ceiling_passes m' (self_requests m' + int (k - ?k))"
        using h(1) cfg(5) unfolding n ceiling_passes_def
        by (simp add: get_token_check_def get_max_requests_def)
      moreover have "fails_with_status m' (env k) (status k)"
        using h(2) c' fails_with_status_cong[of m' m] by (simp add: same_config_def)
      moreover have "should_retry m' (ClientResponseError (status k))" using h(3) cfg by simp
      ultimately show "ceiling_passes m' (self_requests m' + int (k - ?k)) \<and>
           fails_with_status m' (env k) (status k) \<and>
           should_retry m' (ClientResponseError (status k))" by simp
    qed
    have lt: "requests < nat (retries m)" using True by linarith
    have upt: "[Suc requests..<Suc (nat (retries m))] = ?k # [Suc ?k..<Suc (nat (retries m))]"
      using lt by (simp add: upt_conv_Cons)
    from "1.IH"(2)[OF True tb[symmetric] refl retry le q' rest]
    show ?thesis unfolding unfold using cfg upt by simp
  qed
qed


lemma request_loop_transport_error:
  assumes "int j < retries m" and "has_queue m"
    and "ceiling_passes m (self_requests m + 1)"
    and "enabled (rate_limit m) \<longrightarrow> acquired (env (j + 1)) = Granted"
    and "reply (env (j + 1)) = Raises e"
    and "\<not> (is_Exception e \<and> should_retry m e)"
  shows "outcome (request_loop m x env j tr) = Raised e \<and>
         attempts (request_loop m x env j tr) = j + 1 \<and>
         results (request_loop m x env j tr) = tr @ [Exc e] \<and>
         self_requests (manager_after (request_loop m x env j tr)) = self_requests m + 1"
proof -
  let ?m1 = "m\<lparr>self_requests := self_requests m + 1\<rparr>"
  have chk: "get_token_check ?m1 = Inr ()" using assms(3) by (simp add: ceiling_passes_def)
  have q1: "has_queue ?m1" using assms(2) by (simp add: has_queue_def)
  have g1: "enabled (rate_limit ?m1) \<longrightarrow> acquired (env (j + 1)) = Granted" using assms(4) by simp
  from try_body_raises[OF chk q1 g1 assms(5), of x] obtain m'
    where tb: "try_body ?m1 x (env (j + 1)) = (Exc e, m')" and c': "same_config ?m1 m'"
    by blast
  have cfg: "should_retry m' = should_retry m" "self_requests m' = self_requests m + 1"
    using c' by (simp_all add: same_config_def)
  have "request_loop m x env j tr =
      \<lparr>outcome = Raised e, manager_after = m', attempts = j + 1, results = tr @ [Exc e]\<rparr>"
    using request_loop_raise[of j m x env e m' tr] assms(1,6) tb cfg by simp
  then show ?thesis using cfg by simp
qed

lemma request_loop_response_ends:
  assumes "int j < retries m" and "has_queue m"
    and "ceiling_passes m (self_requests m + 1)"
    and "enabled (rate_limit m) \<longrightarrow> acquired (env (j + 1)) = Granted"
    and "reply (env (j + 1)) = Response status hdr resp_text"
    and "(if resp_text \<noteq> [] then json_deserialize m resp_text else Inr ''{}'') = Inr resp_json"
    and "status \<noteq> 429"
    and "\<not> should_retry m (ClientResponseError status)"
  shows "outcome (request_loop m x env j tr) =
           (if 400 \<le> status then Raised (ClientResponseError status) else Returned resp_json) \<and>
         attempts (request_loop m x env j tr) = j + 1 \<and>
         results (request_loop m x env j tr) =
           tr @ [if 400 \<le> status then Exc (ClientResponseError status) else Return resp_json] \<and>
         self_requests (manager_after (request_loop m x env j tr)) = self_requests m + 1"
proof -
  let ?m1 = "m\<lparr>self_requests := self_requests m + 1\<rparr>"
  have chk: "get_token_check ?m1 = Inr ()" using assms(3) by (simp add: ceiling_passes_def)
  have q1: "has_queue ?m1" using assms(2) by (simp add: has_queue_def)
  have g1: "enabled (rate_limit ?m1) \<longrightarrow> acquired (env (j + 1)) = Granted" using assms(4) by simp
  have d1: "(if resp_text \<noteq> [] then json_deserialize ?m1 resp_text else Inr ''{}'') = Inr resp_json"
    using assms(6) by (auto split: if_splits)
  from try_body_response[OF chk q1 g1 assms(5) d1 assms(7), of x] obtain m'
    where tb: "try_body ?m1 x (env (j + 1)) =
        (if 400 \<le> status then Exc (ClientResponseError status) else Return resp_json, m')"
      and c': "same_config ?m1 m'"
    by blast
  have cfg: "should_retry m' = should_retry m" "self_requests m' = self_requests m + 1"
    using c' by (simp_all add: same_config_def)
  show ?thesis
  proof (cases "400 \<le> status")
    case True
    with tb have tb': "try_body ?m1 x (env (j + 1)) = (Exc (ClientResponseError status), m')" by simp
    have "request_loop m x env j tr =
        \<lparr>outcome = Raised (ClientResponseError status), manager_after = m', attempts = j + 1,
         results = tr @ [Exc (ClientResponseError status)]\<rparr>"
      using request_loop_raise[of j m x env "ClientResponseError status" m' tr] assms(1,8) tb' cfg
      by simp
    with True cfg show ?thesis by simp
  next
    case False
    with tb have tb': "try_body ?m1 x (env (j + 1)) = (Return resp_json, m')" by simp
    have "request_loop m x env j tr =
        \<lparr>outcome = Returned resp_json, manager_after = m', attempts = j + 1,
         results = tr @ [Return resp_json]\<rparr>"
      using request_loop_return[of j m x env resp_json m' tr] assms(1) tb' by simp
    with False cfg show ?thesis by simp
  qed
qed

lemmas attempt_eval =
  request_eval always_def timing_out_def throttling_def has_queue_def ceiling_passes_def
  fails_with_status_def decodes_def handle_429_def parse_retry_after_def int_of_str_eval
  float_overflow_def Let_def

text \<open>
  C3, amended. Let the configured number of retries be zero or more. If every attempt up
  to that number is answered with an error status other than 429 and a body that is empty
  or decodes, the retry predicate accepts the \<^verbatim>\<open>ClientResponseError\<close> of that status, the
  token waits return and the ceiling test does not raise, then \<^verbatim>\<open>request()\<close> raises
  \<^verbatim>\<open>RetriesExceededError\<close>; each attempt ended in the \<^verbatim>\<open>ClientResponseError\<close> of its
  status, and the attempts made and the growth of the request counter equal the number of
  retries.
\<close>

theorem request_retries_exhausted:
  assumes "0 \<le> retries m" and "has_queue m"
    and "\<forall>k. 1 \<le> k \<and> int k \<le> retries m \<longrightarrow>
           ceiling_passes m (self_requests m + int k) \<and>
           fails_with_status m (env k) (status k) \<and>
           should_retry m (ClientResponseError (status k))"
  shows "outcome (request m x env) = Raised RetriesExceededError \<and>
         int (attempts (request m x env)) = retries m \<and>
         results (request m x env) =
           map (\<lambda>k. Exc (ClientResponseError (status k))) [1..<Suc (nat (retries m))] \<and>
         self_requests (manager_after (request m x env)) = self_requests m + retries m"
proof -
  have "\<forall>k. 0 < k \<and> int k \<le> retries m \<longrightarrow>
           ceiling_passes m (self_requests m + int (k - 0)) \<and>
           fails_with_status m (env k) (status k) \<and>
           should_retry m (ClientResponseError (status k))"
    using assms(3) by auto
  from request_loop_exhausts[of 0 m env status x "[]", OF _ assms(2) this] assms(1)
  show ?thesis by (simp add: request_def)
qed

theorem request_retries_exhausted_witness:
  "outcome (request (init_default example_loads 0) example_extern (always 503 ''{}'')) =
     Raised RetriesExceededError \<and>
   attempts (request (init_default example_loads 0) example_extern (always 503 ''{}'')) = 3 \<and>
   results (request (init_default example_loads 0) example_extern (always 503 ''{}'')) =
     [Exc (ClientResponseError 503), Exc (ClientResponseError 503), Exc (ClientResponseError 503)] \<and>
   self_requests (manager_after (request (init_default example_loads 0) example_extern (always 503 ''{}''))) = 3"
proof -
  let ?m = "init_default example_loads 0"
  have cfg: "retries ?m = 3" "self_requests ?m = 0"
    by (simp_all add: init_default_def init_def)
  have h1: "0 \<le> retries ?m" by (simp add: cfg)
  have h2: "has_queue ?m" by (simp add: attempt_eval)
  have h3: "\<forall>k. 1 \<le> k \<and> int k \<le> retries ?m \<longrightarrow>
           ceiling_passes ?m (self_requests ?m + int k) \<and>
           fails_with_status ?m (always 503 ''{}'' k) ((\<lambda>k. 503) k) \<and>
           should_retry ?m (ClientResponseError ((\<lambda>k. 503) k))"
    by (simp add: attempt_eval)
  have "[1..<Suc (nat 3)] = [1, 2, 3]" by (simp add: upt_rec)
  with request_retries_exhausted [of ?m "always 503 ''{}''" "\<lambda>k. 503" example_extern] h1 h2 h3 cfg
  show ?thesis by simp
qed

text \<open>
  C3 as stated fails in two ways. A response with status 503 whose body does not decode
  ends the request after one attempt with the decoder's exception, which the default
  predicate rejects: the body is decoded before the status is looked at. And with a
  negative number of retries the loop makes no attempt at all.
\<close>

theorem request_retries_counterexample:
  "outcome (request (init_default example_loads 0) example_extern (always 503 ''oops'')) =
     Raised JSONDecodeError \<and>
   attempts (request (init_default example_loads 0) example_extern (always 503 ''oops'')) = 1 \<and>
   outcome (request (init default_retry (- 1) (Some 3) 20 example_loads 0) example_extern (always 503 [])) =
     Raised RetriesExceededError \<and>
   attempts (request (init default_retry (- 1) (Some 3) 20 example_loads 0) example_extern (always 503 [])) = 0"
  by (simp add: attempt_eval)




subsection \<open>The default retry predicate\<close>

text \<open>
  C10, amended. \<open>default_retry\<close> is false for every exception that is not a
  \<^verbatim>\<open>ClientResponseError\<close>, and true only for the statuses 500, 502, 503, 504 and 599.
  Under the default policy, at any turn of the loop of \<^verbatim>\<open>request()\<close>: an attempt whose
  transport call raises an exception that is not a \<^verbatim>\<open>ClientResponseError\<close> ends the request
  with that exception; and an attempt answered with a status other than 429, 500, 502, 503,
  504 and 599 and a body that is empty or decodes ends the request, with the
  \<^verbatim>\<open>ClientResponseError\<close> for an error status and with the decoded body otherwise.
\<close>

theorem default_policy_retries:
  "((\<forall>status. e \<noteq> ClientResponseError status) \<longrightarrow> \<not> default_retry e) \<and>
   (default_retry e \<longrightarrow> (\<exists>status \<in> {500, 502, 503, 504, 599}. e = ClientResponseError status)) \<and>
   (should_retry m = default_retry \<and> int j < retries m \<and> has_queue m \<and>
    ceiling_passes m (self_requests m + 1) \<and>
    (enabled (rate_limit m) \<longrightarrow> acquired (env (j + 1)) = Granted) \<longrightarrow>
      (\<forall>e'. reply (env (j + 1)) = Raises e' \<and> (\<forall>status. e' \<noteq> ClientResponseError status) \<longrightarrow>
         outcome (request_loop m x env j tr) = Raised e' \<and>
         attempts (request_loop m x env j tr) = j + 1) \<and>
      (\<forall>status hdr resp_text resp_json.
         reply (env (j + 1)) = Response status hdr resp_text \<and>
         (if resp_text \<noteq> [] then json_deserialize m resp_text else Inr ''{}'') = Inr resp_json \<and>
         status \<notin> {429, 500, 502, 503, 504, 599} \<longrightarrow>
         attempts (request_loop m x env j tr) = j + 1 \<and>
         outcome (request_loop m x env j tr) =
           (if 400 \<le> status then Raised (ClientResponseError status) else Returned resp_json)))"
proof (intro conjI impI allI)
  assume "\<forall>status. e \<noteq> ClientResponseError status"
  then show "\<not> default_retry e" by (cases e) auto
next
  assume "default_retry e"
  then show "\<exists>status \<in> {500, 502, 503, 504, 599}. e = ClientResponseError status"
    by (cases e) (auto simp: retry_for_statuses_def)
next
  fix e'
  assume h: "should_retry m = default_retry \<and> int j < retries m \<and> has_queue m \<and>
    ceiling_passes m (self_requests m + 1) \<and>
    (enabled (rate_limit m) \<longrightarrow> acquired (env (j + 1)) = Granted)"
    and r: "reply (env (j + 1)) = Raises e' \<and> (\<forall>status. e' \<noteq> ClientResponseError status)"
  have "\<not> default_retry e'" using r by (cases e') auto
  then have nr: "\<not> (is_Exception e' \<and> should_retry m e')" using h by simp
  from request_loop_transport_error[of j m env e' x tr] h r nr
  show "outcome (request_loop m x env j tr) = Raised e'"
    and "attempts (request_loop m x env j tr) = j + 1"
    by simp_all
next
  fix status hdr resp_text resp_json
  assume h: "should_retry m = default_retry \<and> int j < retries m \<and> has_queue m \<and>
    ceiling_passes m (self_requests m + 1) \<and>
    (enabled (rate_limit m) \<longrightarrow> acquired (env (j + 1)) = Granted)"
    and r: "reply (env (j + 1)) = Response status hdr resp_text \<and>
         (if resp_text \<noteq> [] then json_deserialize m resp_text else Inr ''{}'') = Inr resp_json \<and>
         status \<notin> {429, 500, 502, 503, 504, 599}"
  have nr: "\<not> should_retry m (ClientResponseError status)"
    using h r by (simp add: retry_for_statuses_def)
  have n429: "status \<noteq> 429" using r by simp
  from request_loop_response_ends[of j m env status hdr resp_text resp_json x tr] h r nr n429
  show "attempts (request_loop m x env j tr) = j + 1"
    and "outcome (request_loop m x env j tr) =
           (if 400 \<le> status then Raised (ClientResponseError status) else Returned resp_json)"
    by simp_all
qed


theorem default_policy_retries_witness:
  "\<not> default_retry TimeoutError \<and> default_retry (ClientResponseError 503) \<and>
   outcome (request (init_default example_loads 0) example_extern timing_out) = Raised TimeoutError \<and>
   attempts (request (init_default example_loads 0) example_extern timing_out) = 1 \<and>
   outcome (request (init_default example_loads 0) example_extern (always 404 ''{}'')) =
     Raised (ClientResponseError 404) \<and>
   attempts (request (init_default example_loads 0) example_extern (always 404 ''{}'')) = 1"
proof -
  let ?m = "init_default example_loads 0"
  have h: "should_retry ?m = default_retry \<and> int 0 < retries ?m \<and> has_queue ?m \<and>
      ceiling_passes ?m (self_requests ?m + 1)"
    by (simp add: attempt_eval)
  have g1: "enabled (rate_limit ?m) \<longrightarrow> acquired (timing_out (0 + 1)) = Granted"
    by (simp add: attempt_eval)
  have g2: "enabled (rate_limit ?m) \<longrightarrow> acquired (always 404 ''{}'' (0 + 1)) = Granted"
    by (simp add: attempt_eval)
  have r1: "reply (timing_out (0 + 1)) = Raises TimeoutError \<and>
      (\<forall>status. TimeoutError \<noteq> ClientResponseError status)"
    by (simp add: timing_out_def)
  have r2: "reply (always 404 ''{}'' (0 + 1)) = Response 404 None ''{}'' \<and>
      (if ''{}'' \<noteq> [] then json_deserialize ?m ''{}'' else Inr ''{}'') = Inr ''{}'' \<and>
      (404::int) \<notin> {429, 500, 502, 503, 504, 599}"
    by (simp add: attempt_eval)
  have a: "\<not> default_retry TimeoutError"
    using default_policy_retries [of TimeoutError ?m 0 timing_out example_extern "[]"] by simp
  have b: "default_retry (ClientResponseError 503)" by (simp add: retry_for_statuses_def)
  have c: "outcome (request_loop ?m example_extern timing_out 0 []) = Raised TimeoutError \<and>
      attempts (request_loop ?m example_extern timing_out 0 []) = 0 + 1"
    using default_policy_retries [of TimeoutError ?m 0 timing_out example_extern "[]"] h g1 r1
    by blast
  have d: "attempts (request_loop ?m example_extern (always 404 ''{}'') 0 []) = 0 + 1 \<and>
      outcome (request_loop ?m example_extern (always 404 ''{}'') 0 []) =
        (if (400::int) \<le> 404 then Raised (ClientResponseError 404) else Returned ''{}'')"
    using default_policy_retries [of TimeoutError ?m 0 "always 404 ''{}''" example_extern "[]"] h g2 r2
    by blast
  from a b c d show ?thesis by (simp add: request_def)
qed

text \<open>
  C10 as stated fails for the status 429: under the default policy a response with status
  429 is followed by another attempt, without the predicate being asked.
\<close>

theorem default_policy_counterexample:
  "should_retry (init_default example_loads 0) = default_retry \<and>
   results (request (init_default example_loads 0) example_extern throttling) =
     [Continue, Continue, Continue] \<and>
   attempts (request (init_default example_loads 0) example_extern throttling) = 3"
  by (simp add: attempt_eval)


subsection \<open>The token bucket\<close>

lemma put_all_bounded:
  assumes "put_all q xs = (e, q')" and "maxsize q = cap" and "qsize q \<le> cap"
    and "cap \<le> 0 \<longrightarrow> xs = []"
  shows "maxsize q' = cap \<and> qsize q' \<le> cap"
  using assms
proof (induction xs arbitrary: q)
  case Nil
  then show ?case by simp
next
  case (Cons i rest)
  from Cons.prems(4) have pos: "0 < cap" by auto
  show ?case
  proof (cases "full q")
    case True
    with Cons.prems show ?thesis by (simp add: put_nowait_def)
  next
    case False
    let ?q1 = "q\<lparr>items := items q @ [i]\<rparr>"
    from False Cons.prems(1) have rec: "put_all ?q1 rest = (e, q')"
      by (simp add: put_nowait_def)
    from False pos Cons.prems(2) have "qsize ?q1 \<le> cap"
      by (simp add: full_def qsize_def split: if_splits)
    moreover have "maxsize ?q1 = cap" using Cons.prems(2) by simp
    ultimately show ?thesis using Cons.IH[OF rec] pos by simp
  qed
qed

lemma trunc_le: "x \<le> of_int b \<Longrightarrow> trunc x \<le> b"
  by (auto simp: trunc_def floor_le_iff ceiling_le_iff intro: order_trans[OF of_int_floor_le])

lemma bucket_ok_set_pc [simp]: "bucket_ok cap (set_pc m p) = bucket_ok cap m"
  by (simp add: bucket_ok_def set_pc_def)

lemma bucket_ok_queue: "bucket_ok cap (m\<lparr>token_queue := Some q\<rparr>) = (maxsize q = cap \<and> qsize q \<le> cap)"
  by (simp add: bucket_ok_def)

lemma rm_refill_ok:
  assumes "bucket_ok cap m"
  shows "bucket_ok cap (rm_refill m sleep lce now)"
proof (cases "token_queue m")
  case None
  with assms show ?thesis by (simp add: rm_refill_def)
next
  case (Some q)
  with assms have q: "maxsize q = cap" "qsize q \<le> cap" by (simp_all add: bucket_ok_def)
  show ?thesis
  proof (cases "\<not> (full q \<or> time_set (retry_after_time m))")
    case False
    with Some assms show ?thesis by (auto simp: rm_refill_def)
  next
    case True
    show ?thesis
    proof (cases "rate_limit m")
      case None
      with Some True assms show ?thesis by (auto simp: rm_refill_def)
    next
      case (Some rate)
      let ?n = "trunc (min (of_int rate * (now - lce)) (of_int (maxsize q - qsize q)))"
      obtain e q' where pa: "put_all q (py_range ?n) = (e, q')"
        by (cases "put_all q (py_range ?n)")
      have "?n \<le> maxsize q - qsize q" by (rule trunc_le) simp
      then have "cap \<le> 0 \<longrightarrow> py_range ?n = []"
        using q by (auto simp: qsize_def py_range_def)
      from put_all_bounded[OF pa q this] have "maxsize q' = cap \<and> qsize q' \<le> cap" .
      with \<open>token_queue m = Some q\<close> Some True pa assms show ?thesis
        by (cases e) (simp_all add: rm_refill_def Let_def bucket_ok_queue)
    qed
  qed
qed

lemma bucket_ok_event [simp]:
  "bucket_ok cap (m\<lparr>retry_after_event := b, retry_after_time := t\<rparr>) = bucket_ok cap m"
  by (simp add: bucket_ok_def)

lemma rm_loop_ok: "bucket_ok cap m \<Longrightarrow> bucket_ok cap (rm_loop m sleep lce now)"
  by (simp add: rm_loop_def rm_refill_ok split: option.splits)

lemma rm_start_ok:
  assumes "bucket_ok cap m"
  shows "bucket_ok cap (rm_start m t1 t2)"
proof (cases "token_queue m")
  case None
  with assms show ?thesis by (simp add: rm_start_def)
next
  case (Some q)
  with assms have q: "maxsize q = cap" "qsize q \<le> cap" by (simp_all add: bucket_ok_def)
  obtain e q' where pa: "put_all q (py_range (maxsize q)) = (e, q')"
    by (cases "put_all q (py_range (maxsize q))")
  have "cap \<le> 0 \<longrightarrow> py_range (maxsize q) = []" using q by (simp add: py_range_def)
  from put_all_bounded[OF pa q this] have ok: "bucket_ok cap (m\<lparr>token_queue := Some q'\<rparr>)"
    by (simp add: bucket_ok_queue)
  show ?thesis
    using Some assms pa ok
    by (cases e) (auto simp: rm_start_def rm_loop_ok split: sum.splits option.splits)
qed

lemma bucket_ok_task [simp]: "bucket_ok cap (m\<lparr>rate_manager_task := t\<rparr>) = bucket_ok cap m"
  by (simp add: bucket_ok_def)

lemma rm_resume_ok: "bucket_ok cap m \<Longrightarrow> bucket_ok cap (rm_resume m t1 t2)"
  by (simp add: rm_resume_def rm_start_ok rm_loop_ok rm_refill_ok
      split: option.splits rm_pc.splits)

lemma queue_get_le: "qsize (queue_get q) \<le> qsize q \<and> maxsize (queue_get q) = maxsize q"
  by (simp add: queue_get_def qsize_def split: list.splits)

lemma enter_queue_ok:
  assumes "enter_queue m now = (c, m')"
  shows "(bucket_ok cap m \<longrightarrow> bucket_ok cap m') \<and> tokens m' \<le> tokens m"
proof (cases "token_queue m")
  case None
  with assms show ?thesis by (auto simp: enter_queue_def)
next
  case (Some q)
  have le: "qsize (queue_get q) \<le> qsize q" and mx: "maxsize (queue_get q) = maxsize q"
    using queue_get_le[of q] by simp_all
  have "m' = m \<or> m' = m\<lparr>token_queue := Some (queue_get q)\<rparr>"
    using assms Some by (auto simp: enter_queue_def split: if_splits)
  then show ?thesis
    using Some le mx by (auto simp: bucket_ok_def tokens_def)
qed

lemma bucket_ok_requests [simp]: "bucket_ok cap (m\<lparr>self_requests := n\<rparr>) = bucket_ok cap m"
  by (simp add: bucket_ok_def)

lemma tokens_requests [simp]: "tokens (m\<lparr>self_requests := n\<rparr>) = tokens m"
  by (simp add: tokens_def)

lemma call_get_token_ok:
  assumes "call_get_token m now = (c, m')"
  shows "(bucket_ok cap m \<longrightarrow> bucket_ok cap m') \<and> tokens m' \<le> tokens m"
proof -
  let ?m1 = "m\<lparr>self_requests := self_requests m + 1\<rparr>"
  have "m' = ?m1 \<or> enter_queue ?m1 now = (c, m')"
    using assms by (auto simp: call_get_token_def Let_def split: sum.splits if_splits)
  then show ?thesis
    using enter_queue_ok[of ?m1 now c m' cap] by auto
qed

lemma handle_429_ok:
  assumes "handle_429 m x now hdr = Inr m'"
  shows "token_queue m' = token_queue m"
  using assms by (auto simp: handle_429_def Let_def split: sum.splits pyval.splits if_splits)

lemma close_ok:
  assumes "close m now = (e, m', effects)"
  shows "token_queue m' = token_queue m"
  using assms by (auto simp: close_def Let_def split: option.splits if_splits)

lemma step_ok:
  assumes "step l s = Some s'" and "bucket_ok cap (mgr s)"
  shows "bucket_ok cap (mgr s')"
proof (cases l)
  case (RM t1 t2)
  with assms show ?thesis by (auto simp: Let_def rm_resume_ok split: if_splits)
next
  case (Call i now)
  with assms show ?thesis
    using call_get_token_ok[of "mgr s" now _ _ cap]
    by (auto split: if_splits prod.splits)
next
  case (Wake i now)
  with assms show ?thesis
    using enter_queue_ok[of "mgr s" now _ _ cap]
    by (auto split: if_splits prod.splits)
next
  case (Throttle now hdr)
  with assms show ?thesis
    using handle_429_ok[of "mgr s" "ext s" now hdr]
    by (auto simp: bucket_ok_def split: if_splits sum.splits)
next
  case (Close now)
  with assms show ?thesis
    using close_ok[of "mgr s" now]
    by (auto simp: bucket_ok_def split: if_splits prod.splits)
qed

lemma run_ok: "run ls s = Some s' \<Longrightarrow> bucket_ok cap (mgr s) \<Longrightarrow> bucket_ok cap (mgr s')"
  by (induction ls arbitrary: s) (auto split: option.splits dest: step_ok)

lemma step_consumer_removes:
  assumes "step l s = Some s'" and "\<not> is_RM l"
  shows "available s' \<le> available s"
proof (cases l)
  case (RM t1 t2)
  with assms show ?thesis by simp
next
  case (Call i now)
  with assms show ?thesis
    using call_get_token_ok[of "mgr s" now _ _ 0]
    by (auto simp: available_def tokens_def split: if_splits prod.splits)
next
  case (Wake i now)
  with assms show ?thesis
    using enter_queue_ok[of "mgr s" now _ _ 0]
    by (auto simp: available_def tokens_def split: if_splits prod.splits)
next
  case (Throttle now hdr)
  with assms show ?thesis
    using handle_429_ok[of "mgr s" "ext s" now hdr]
    by (auto simp: available_def split: if_splits sum.splits)
next
  case (Close now)
  with assms show ?thesis
    using close_ok[of "mgr s" now]
    by (auto simp: available_def split: if_splits prod.splits)
qed

lemma init_ok: "0 \<le> burst \<Longrightarrow> bucket_ok burst (init p n rate burst d now)"
  by (simp add: init_def bucket_ok_def qsize_def)

text \<open>
  C2. In every state the system reaches from a manager made with a burst size that is not
  negative, the number of tokens in the queue lies between 0 and that burst size, and no
  step other than one of the refill task makes it larger: starting \<^verbatim>\<open>_get_token\<close>,
  resuming it, handling a throttling response and closing only keep or lower it.
\<close>

theorem token_bucket_capacity:
  assumes "0 \<le> burst"
    and "run ls (boot (init p n rate burst d now) x now) = Some s"
  shows "0 \<le> available s \<and> available s \<le> burst \<and>
         (\<forall>l s'. \<not> is_RM l \<and> step l s = Some s' \<longrightarrow> available s' \<le> available s)"
proof -
  have "bucket_ok burst (mgr s)"
    using run_ok[OF assms(2), of burst] init_ok[OF assms(1)] by (simp add: boot_def)
  then have "0 \<le> available s \<and> available s \<le> burst"
    using assms(1) by (auto simp: bucket_ok_def available_def qsize_def split: option.splits)
  then show ?thesis using step_consumer_removes by blast
qed


lemmas system_eval =
  float_overflow_def small_bucket_def boot_def init_def enabled_def rm_resume_def rm_start_def rm_loop_def rm_refill_def
  sleep_duration_def min_sleep_def set_pc_def py_range_def put_nowait_def full_def qsize_def
  time_set_def trunc_def call_get_token_def enter_queue_def queue_get_def get_token_check_def
  get_max_requests_def getattr_fallback_def shortcuts_def release_waiters_def
  handle_429_def parse_retry_after_def int_of_str_eval Let_def available_def

theorem token_bucket_capacity_witness:
  "(0::int) \<le> 2 \<and>
   (case run [RM 0 0, Call 0 1] small_bucket of
      None \<Rightarrow> False
    | Some s \<Rightarrow> 0 \<le> available s \<and> available s \<le> 2 \<and>
        (\<forall>l s'. \<not> is_RM l \<and> step l s = Some s' \<longrightarrow> available s' \<le> available s))"
proof -
  have "map_option available (run [RM 0 0, Call 0 1] small_bucket) = Some 1"
    by (simp add: system_eval upt_rec)
  then obtain s where s: "run [RM 0 0, Call 0 1] small_bucket = Some s"
    by (cases "run [RM 0 0, Call 0 1] small_bucket") simp_all
  have h: "(0::int) \<le> 2" by simp
  show ?thesis
    using token_bucket_capacity [OF h s[unfolded small_bucket_def]] s by simp
qed


subsection \<open>The penalty box\<close>

lemma same_gate_refl [simp]: "same_gate m m"
  by (simp add: same_gate_def)

lemma set_pc_fields [simp]:
  "retry_after_event (set_pc m p) = retry_after_event m"
  "retry_after_time (set_pc m p) = retry_after_time m"
  "rate_limit (set_pc m p) = rate_limit m"
  by (simp_all add: set_pc_def)



























end
